theory Spec2Isabelle
  imports Main "HOL-Library.AList" "HOL-Library.Sublist"
begin

section \<open>JavaScript values, objects and strings\<close>

text \<open>
  The development embeds \<^verbatim>\<open>src/models/FireModel.js\<close>. A field value is a JSON scalar;
  a JavaScript object is the list of its own enumerable properties in insertion order,
  read with \<^const>\<open>map_of\<close> and written with \<^const>\<open>AList.update\<close> (an assignment
  \<^verbatim>\<open>o[k] = v\<close> keeps the position of an existing key and appends a new one).
  A property that is missing reads as \<^verbatim>\<open>undefined\<close>, here \<^const>\<open>None\<close>.
  Numbers are integers and are taken to stay inside the range where JavaScript's
  doubles are exact and print in plain decimal notation.
\<close>

datatype val = VNull | VBool bool | VNum int | VStr string

type_synonym obj = "(string \<times> val) list"

fun truthy :: "val \<Rightarrow> bool" where
  "truthy VNull = False"
| "truthy (VBool b) = b"
| "truthy (VNum n) = (n \<noteq> 0)"
| "truthy (VStr s) = (s \<noteq> [])"

fun truthy_opt :: "val option \<Rightarrow> bool" where
  "truthy_opt None = False"
| "truthy_opt (Some v) = truthy v"

text \<open>\<^verbatim>\<open>a || b\<close> where \<^verbatim>\<open>a\<close> may be \<^verbatim>\<open>undefined\<close>.\<close>

definition js_or :: "val option \<Rightarrow> val \<Rightarrow> val" where
  "js_or a b = (case a of None \<Rightarrow> b | Some v \<Rightarrow> if truthy v then v else b)"

text \<open>
  Strings are lists of one-byte code units (the Latin-1 range of JavaScript's UTF-16
  strings). \<^verbatim>\<open>\s\<close> matches, in that range, the code units 9 to 13, 32 and 160;
  \<^verbatim>\<open>toLowerCase\<close> maps A to Z, and 192 to 222 except 215, to the code unit 32 above.
\<close>

definition is_whitespace :: "char \<Rightarrow> bool" where
  "is_whitespace c = (let n = (of_char c :: nat) in (9 \<le> n \<and> n \<le> 13) \<or> n = 32 \<or> n = 160)"

definition lower_char :: "char \<Rightarrow> char" where
  "lower_char c =
     (let n = (of_char c :: nat)
      in if (65 \<le> n \<and> n \<le> 90) \<or> (192 \<le> n \<and> n \<le> 222 \<and> n \<noteq> 215)
         then char_of (n + 32) else c)"

definition toLowerCase :: "string \<Rightarrow> string" where
  "toLowerCase s = map lower_char s"

text \<open>\<^verbatim>\<open>value.replace(/\s+/g, '')\<close>: every run of whitespace is deleted.\<close>

definition strip_whitespace :: "string \<Rightarrow> string" where
  "strip_whitespace s = filter (\<lambda>c. \<not> is_whitespace c) s"

text \<open>\<^verbatim>\<open>s.substring(i, j)\<close> for \<^verbatim>\<open>0 <= i <= j\<close>; an end past the string is clamped.\<close>

definition substring :: "string \<Rightarrow> nat \<Rightarrow> nat \<Rightarrow> string" where
  "substring s i j = take (j - i) (drop i s)"

text \<open>\<^verbatim>\<open>Object.fromEntries(arr)\<close>: the entries are assigned in order, later ones win.\<close>

definition fromEntries :: "(string \<times> val) list \<Rightarrow> obj" where
  "fromEntries arr = fold (\<lambda>(k, v) ob. AList.update k v ob) arr []"

section \<open>Token index\<close>

text \<open>
  The two loops of \<^verbatim>\<open>getNgramTokenMap\<close> (and of the \<^verbatim>\<open>tokenMap\<close> getter):
  \<^verbatim>\<open>for (let i = 0; i <= target.length - k; i++) arr.push([target.substring(i, i + k).toLowerCase(), true])\<close>.
  The loop runs for \<open>i = 0, \<dots>, length - k\<close>, that is, not at all when the string
  is shorter than \<open>k\<close>.
\<close>

definition ngram_loop :: "nat \<Rightarrow> string \<Rightarrow> (string \<times> val) list" where
  "ngram_loop k target =
     map (\<lambda>i. (toLowerCase (substring target i (i + k)), VBool True))
         [0 ..< length target + 1 - k]"

definition ngram_entries :: "string \<Rightarrow> (string \<times> val) list" where
  "ngram_entries v =
     (let target = strip_whitespace v in ngram_loop 1 target @ ngram_loop 2 target)"

definition getNgramTokenMap :: "string \<Rightarrow> obj" where
  "getNgramTokenMap v = fromEntries (ngram_entries v)"


section \<open>Errors and diagnostics\<close>

text \<open>
  The \<^verbatim>\<open>Error\<close> objects the class throws are kept apart by constructor rather than
  by message text. \<open>DependencyConflict c d\<close> is the error of \<^verbatim>\<open>delete()\<close> whose message
  ends in \<^verbatim>\<open>"\nCollection: " + c + "\ndocId: " + d\<close>; \<open>NumberingExhausted c\<close> is
  \<^verbatim>\<open>No more documents can be added to the c collection.\<close>; \<open>InvalidPath\<close> stands for
  the error the store SDK raises when \<^verbatim>\<open>doc(colRef, id)\<close> is given an id that is not a
  non-empty string, \<open>NotFound\<close> for the one \<^verbatim>\<open>updateDoc\<close> raises on a missing document,
  and \<open>UserError\<close> for any \<^verbatim>\<open>Error\<close> a hook of a subclass rejects with.
\<close>

datatype error =
    FetchRequiresDocId
  | UpdateRequiresDocId
  | DeleteRequiresDocId
  | DependencyConflict string val
  | NumberingExhausted string
  | InvalidPath
  | NotFound
  | RangeError
  | TypeError
  | UserError string

text \<open>
  A promise can be rejected with any value: with nothing at all (\<^verbatim>\<open>reject()\<close>), with
  a scalar, or with an \<^verbatim>\<open>Error\<close> object.
\<close>

datatype reason = Undefined | Thrown val | ErrorObject error

datatype severity = SInfo | SWarn | SError

datatype logmsg = Text string | MessageOf error | NoMessage

type_synonym log_entry = "severity \<times> logmsg \<times> val list"

text \<open>
  \<^verbatim>\<open>err.message\<close>: reading a property of \<^verbatim>\<open>undefined\<close> or \<^verbatim>\<open>null\<close> raises a
  TypeError (\<^const>\<open>None\<close>); any other scalar has no such property and yields
  \<^verbatim>\<open>undefined\<close>.
\<close>

fun message_of :: "reason \<Rightarrow> logmsg option" where
  "message_of Undefined = None"
| "message_of (Thrown VNull) = None"
| "message_of (Thrown v) = Some NoMessage"
| "message_of (ErrorObject e) = Some (MessageOf e)"

section \<open>The document store\<close>

text \<open>
  The store holds the documents by path (collection and id) and, for the reserved
  collection \<^verbatim>\<open>Autonumbers\<close>, one typed record per numbered collection, shaped
  \<^verbatim>\<open>{ current, length, field, condition }\<close>. Collection names are taken to be valid
  path segments, and a call to the store fails only for the reasons written out below:
  outages of the network and refused permissions are left out.
\<close>

type_synonym path = "string \<times> string"

record autonumber =
  an_current :: int
  an_length :: int
  an_field :: string
  an_condition :: bool

record store =
  docs :: "(path \<times> obj) list"
  autonumbers :: "(string \<times> autonumber) list"

text \<open>\<^verbatim>\<open>doc(collection(firestore, col), id)\<close>.\<close>

fun doc_ref :: "string \<Rightarrow> val option \<Rightarrow> reason + path" where
  "doc_ref col (Some (VStr s)) =
     (if s = [] then Inl (ErrorObject InvalidPath) else Inr (col, s))"
| "doc_ref col _ = Inl (ErrorObject InvalidPath)"

text \<open>
  \<^verbatim>\<open>updateDoc(ref, item)\<close> overwrites the fields of \<^verbatim>\<open>item\<close> in an existing document
  and keeps the others; it fails on a missing document.
\<close>

definition merge_fields :: "obj \<Rightarrow> obj \<Rightarrow> obj" where
  "merge_fields old item = fold (\<lambda>(k, v) ob. AList.update k v ob) item old"

definition updateDoc :: "path \<Rightarrow> obj \<Rightarrow> store \<Rightarrow> reason + store" where
  "updateDoc p item st =
     (case map_of (docs st) p of
        None \<Rightarrow> Inl (ErrorObject NotFound)
      | Some old \<Rightarrow> Inr (st\<lparr>docs := AList.update p (merge_fields old item) (docs st)\<rparr>))"

definition deleteDoc :: "path \<Rightarrow> store \<Rightarrow> store" where
  "deleteDoc p st = st\<lparr>docs := AList.delete p (docs st)\<rparr>"

text \<open>The writes a transaction buffers; they are applied together when it commits.\<close>

datatype tx_write = SetCurrent string int | SetDoc path obj

fun apply_write :: "tx_write \<Rightarrow> store \<Rightarrow> store" where
  "apply_write (SetCurrent col n) st =
     st\<lparr>autonumbers := AList.map_entry col (\<lambda>a. a\<lparr>an_current := n\<rparr>) (autonumbers st)\<rparr>"
| "apply_write (SetDoc p item) st = st\<lparr>docs := AList.update p item (docs st)\<rparr>"

section \<open>The model instance and its environment\<close>

record dependency =
  dep_collection :: string
  dep_field :: string
  dep_condition :: string

text \<open>
  \<open>props\<close> are the data properties of the instance (\<^verbatim>\<open>docId\<close>, \<^verbatim>\<open>createAt\<close>, \<dots>,
  and whatever a subclass or a caller adds); the other three fields are the private
  \<^verbatim>\<open>#collection\<close>, \<^verbatim>\<open>#hasMany\<close> and \<^verbatim>\<open>#tokenFields\<close>. \<^verbatim>\<open>key in this\<close> is read as
  membership among the data properties.
\<close>

record model =
  collection :: string
  hasMany :: "dependency list"
  tokenFields :: "string list"
  props :: obj

text \<open>
  What an operation reads from outside: the clock (\<^verbatim>\<open>dateUtc.getTime()\<close> and
  \<^verbatim>\<open>dateJst.toLocaleString()\<close>, read once per operation), the signed-in user's id
  (\<^verbatim>\<open>auth?.currentUser?.uid\<close>), the id the store generates for \<^verbatim>\<open>doc(colRef)\<close>, and the
  store's meaning of a \<^verbatim>\<open>where(field, op, value)\<close> filter on a document's field.
\<close>

record env =
  now_utc :: int
  now_jst :: string
  current_uid :: "val option"
  auto_id :: string
  where_holds :: "string \<Rightarrow> val option \<Rightarrow> val \<Rightarrow> bool"

text \<open>
  A lifecycle hook is code of a subclass: it may change the instance and the store, and
  its promise resolves (\<^const>\<open>None\<close>) or rejects with a reason. The hooks of the base
  class all resolve at once.
\<close>

type_synonym hook = "model \<Rightarrow> store \<Rightarrow> reason option \<times> model \<times> store"

record hooks =
  beforeCreate :: hook
  afterCreate :: hook
  beforeUpdate :: hook
  afterUpdate :: hook
  beforeDelete :: hook
  afterDelete :: hook

definition resolve :: hook where
  "resolve m st = (None, m, st)"

definition base_hooks :: hooks where
  "base_hooks = \<lparr>beforeCreate = resolve, afterCreate = resolve, beforeUpdate = resolve,
                  afterUpdate = resolve, beforeDelete = resolve, afterDelete = resolve\<rparr>"

datatype hook_name =
  BeforeCreate | AfterCreate | BeforeUpdate | AfterUpdate | BeforeDelete | AfterDelete

text \<open>
  The calls an operation itself makes, in order: hooks, store reads, queries
  (\<open>EvQuery collection field op value\<close>, always with \<^verbatim>\<open>limit(1)\<close>), and store writes.
  \<open>EvCommit\<close> carries the writes of a committed transaction, \<open>EvAbort\<close> marks one that
  threw.
\<close>

datatype event =
    EvHook hook_name
  | EvGetDoc path
  | EvQuery string string string val
  | EvCommit "tx_write list"
  | EvAbort
  | EvUpdateDoc path obj
  | EvDeleteDoc path

record world =
  inst :: model
  db :: store
  console :: "log_entry list"
  trace :: "event list"

definition sendConsole :: "severity \<Rightarrow> logmsg \<Rightarrow> val list \<Rightarrow> world \<Rightarrow> world" where
  "sendConsole ty message params w = w\<lparr>console := console w @ [(ty, message, params)]\<rparr>"

definition emit :: "event \<Rightarrow> world \<Rightarrow> world" where
  "emit ev w = w\<lparr>trace := trace w @ [ev]\<rparr>"

text \<open>
  \<^verbatim>\<open>await this.hook().catch((err) => { this.sendConsole({...}); throw err })\<close>.
\<close>

definition run_hook :: "hook_name \<Rightarrow> hook \<Rightarrow> string \<Rightarrow> world \<Rightarrow> reason option \<times> world" where
  "run_hook name h message w =
     (case h (inst w) (db w) of
        (None, m, st) \<Rightarrow> (None, (emit (EvHook name) w)\<lparr>inst := m, db := st\<rparr>)
      | (Some err, m, st) \<Rightarrow>
          (Some err, sendConsole SError (Text message) [] ((emit (EvHook name) w)\<lparr>inst := m, db := st\<rparr>)))"

text \<open>
  The outer handler of every operation:
  \<^verbatim>\<open>catch (err) { this.sendConsole({ message: err.message, type: 'error' }); throw err }\<close>.
  Reading \<^verbatim>\<open>err.message\<close> comes first, so a reason without properties never reaches
  \<^verbatim>\<open>throw err\<close>.
\<close>

definition rethrow :: "reason \<Rightarrow> world \<Rightarrow> (reason + 'a) \<times> world" where
  "rethrow err w =
     (case message_of err of
        None \<Rightarrow> (Inl (ErrorObject TypeError), w)
      | Some m \<Rightarrow> (Inl err, sendConsole SError m [] w))"

definition get_prop :: "string \<Rightarrow> model \<Rightarrow> val option" where
  "get_prop k m = map_of (props m) k"

definition set_prop :: "string \<Rightarrow> val \<Rightarrow> model \<Rightarrow> model" where
  "set_prop k v m = m\<lparr>props := AList.update k v (props m)\<rparr>"

section \<open>Construction and initialisation\<close>

text \<open>
  \<^verbatim>\<open>JSON.parse(JSON.stringify(v))\<close> copies a value; on the immutable scalars of the model
  the copy is the value itself.
\<close>

definition json_clone :: "val \<Rightarrow> val" where
  "json_clone v = v"

text \<open>
  \<^verbatim>\<open>initialize(item)\<close>: the six base properties are assigned from \<^verbatim>\<open>item\<close> or reset;
  without an item the method returns there. Otherwise every key of the item that the
  instance already has is overwritten with a copy.
\<close>

definition assign_key :: "obj \<Rightarrow> string \<Rightarrow> model \<Rightarrow> model" where
  "assign_key item key m =
     (if key \<in> fst ` set (props m)
      then (case map_of item key of Some v \<Rightarrow> set_prop key (json_clone v) m | None \<Rightarrow> m)
      else m)"

definition item_prop :: "obj option \<Rightarrow> string \<Rightarrow> val option" where
  "item_prop item k = (case item of None \<Rightarrow> None | Some it \<Rightarrow> map_of it k)"

definition initialize :: "obj option \<Rightarrow> model \<Rightarrow> model" where
  "initialize item m =
     (let m1 = set_prop ''docId'' (js_or (item_prop item ''docId'') (VStr [])) m;
          m2 = set_prop ''createAt'' (js_or (item_prop item ''createAt'') VNull) m1;
          m3 = set_prop ''createDate'' (js_or (item_prop item ''createDate'') (VStr [])) m2;
          m4 = set_prop ''updateAt'' (js_or (item_prop item ''updateAt'') VNull) m3;
          m5 = set_prop ''updateDate'' (js_or (item_prop item ''updateDate'') (VStr [])) m4;
          m6 = set_prop ''uid'' (js_or (item_prop item ''uid'') (VStr [])) m5
      in case item of
           None \<Rightarrow> m6
         | Some it \<Rightarrow> fold (assign_key it) (map fst it) m6)"

text \<open>
  \<^verbatim>\<open>new FireModel(firestore, collection, auth)\<close>: the private fields get their
  initialisers and \<^verbatim>\<open>this.initialize()\<close> runs without an item.
\<close>

definition construct :: "string \<Rightarrow> model" where
  "construct col =
     initialize None \<lparr>collection = col, hasMany = [], tokenFields = [], props = []\<rparr>"

section \<open>The tokenMap property\<close>

text \<open>
  The getter returns \<^verbatim>\<open>null\<close> (\<^const>\<open>None\<close>) when no token field is declared. Otherwise it
  walks the declared fields; a field the instance has must hold a string, since
  \<^verbatim>\<open>this[fieldName].replace\<close> raises a TypeError on anything else. The setter has
  an empty body.
\<close>

fun tokenMap_entries :: "obj \<Rightarrow> string list \<Rightarrow> reason + (string \<times> val) list" where
  "tokenMap_entries ps [] = Inr []"
| "tokenMap_entries ps (fieldName # rest) =
     (case map_of ps fieldName of
        None \<Rightarrow> tokenMap_entries ps rest
      | Some (VStr s) \<Rightarrow>
          (case tokenMap_entries ps rest of
             Inl err \<Rightarrow> Inl err
           | Inr arr \<Rightarrow> Inr (ngram_entries s @ arr))
      | Some _ \<Rightarrow> Inl (ErrorObject TypeError))"

definition tokenMap_get :: "model \<Rightarrow> reason + obj option" where
  "tokenMap_get m =
     (if tokenFields m = [] then Inr None
      else (case tokenMap_entries (props m) (tokenFields m) of
              Inl err \<Rightarrow> Inl err
            | Inr arr \<Rightarrow> Inr (Some (fromEntries arr))))"

definition tokenMap_set :: "val \<Rightarrow> model \<Rightarrow> model" where
  "tokenMap_set v m = m"

section \<open>Auto-numbering\<close>

definition digit_char :: "nat \<Rightarrow> char" where
  "digit_char d = char_of (48 + d)"

fun digits_of_nat :: "nat \<Rightarrow> string" where
  "digits_of_nat n =
     (if n < 10 then [digit_char n] else digits_of_nat (n div 10) @ [digit_char (n mod 10)])"

declare digits_of_nat.simps [simp del]

text \<open>The string a number becomes when it is appended to a string.\<close>

definition number_to_string :: "int \<Rightarrow> string" where
  "number_to_string i =
     (if i < 0 then CHR ''-'' # digits_of_nat (nat (- i)) else digits_of_nat (nat i))"

text \<open>
  \<^verbatim>\<open>Array(n).join('0')\<close> for \<open>n \<ge> 0\<close>: \<open>n\<close> empty slots joined by \<open>n - 1\<close> zeros
  (none for the empty array). \<^verbatim>\<open>s.slice(-n)\<close>: the last \<open>n\<close> characters, the whole
  string when it is shorter, and also when \<open>n = 0\<close>, since \<^verbatim>\<open>-0\<close> is the start index 0.
\<close>

definition join_zeros :: "int \<Rightarrow> string" where
  "join_zeros n = replicate (nat n - 1) CHR ''0''"

definition slice_last :: "int \<Rightarrow> string \<Rightarrow> string" where
  "slice_last n s = (if n = 0 then s else drop (length s - nat n) s)"

text \<open>
  Lines 285 to 295 of \<^verbatim>\<open>create()\<close>: the next number and its code, or the error thrown.
  \<^verbatim>\<open>Array(length)\<close> raises a RangeError on a negative length.
\<close>

definition next_code :: "string \<Rightarrow> autonumber \<Rightarrow> reason + int \<times> string" where
  "next_code col a =
     (let num = an_current a + 1;
          len = an_length a
      in if len < 0 then Inl (ErrorObject RangeError)
         else (let newCode = slice_last len (join_zeros len @ number_to_string num);
                   maxCode = join_zeros (len + 1)
               in if newCode = maxCode then Inl (ErrorObject (NumberingExhausted col))
                  else Inr (num, newCode)))"

text \<open>
  The body handed to \<^verbatim>\<open>runTransaction\<close>: it reads the autonumber record of the
  collection and buffers its writes; a throw leaves nothing buffered.
\<close>

definition create_transaction :: "string \<Rightarrow> path \<Rightarrow> obj \<Rightarrow> store \<Rightarrow> reason + tx_write list" where
  "create_transaction col docRef item st =
     (case map_of (autonumbers st) col of
        None \<Rightarrow> Inr [SetDoc docRef item]
      | Some a \<Rightarrow>
          if an_condition a
          then (case next_code col a of
                  Inl err \<Rightarrow> Inl err
                | Inr (num, newCode) \<Rightarrow>
                    Inr [SetCurrent col num,
                         SetDoc docRef (AList.update (an_field a) (VStr newCode) item)])
          else Inr [SetDoc docRef item])"

section \<open>create, fetch, update, delete\<close>

definition stamp_update :: "env \<Rightarrow> model \<Rightarrow> model" where
  "stamp_update E m =
     set_prop ''uid'' (js_or (current_uid E) (VStr ''unknown''))
       (set_prop ''updateDate'' (VStr (now_jst E))
         (set_prop ''updateAt'' (VNum (now_utc E)) m))"

definition stamp_create :: "env \<Rightarrow> string \<Rightarrow> model \<Rightarrow> model" where
  "stamp_create E newId m =
     stamp_update E
       (set_prop ''createDate'' (VStr (now_jst E))
         (set_prop ''createAt'' (VNum (now_utc E))
           (set_prop ''docId'' (VStr newId) m)))"

text \<open>\<^verbatim>\<open>docId ? doc(colRef, docId) : doc(colRef)\<close>.\<close>

definition new_doc_ref :: "env \<Rightarrow> string \<Rightarrow> val option \<Rightarrow> reason + path" where
  "new_doc_ref E col docId =
     (if truthy_opt docId then doc_ref col docId else Inr (col, auto_id E))"

definition create_called :: "val option \<Rightarrow> world \<Rightarrow> world" where
  "create_called docId w =
     (case docId of
        None \<Rightarrow> sendConsole SInfo (Text ''create() is called. No document id is specified.'') [] w
      | Some v \<Rightarrow>
          if truthy v
          then sendConsole SInfo (Text ''create() is called. Document id is %s.'') [v] w
          else sendConsole SInfo (Text ''create() is called. No document id is specified.'') [] w)"

definition create :: "env \<Rightarrow> hooks \<Rightarrow> val option \<Rightarrow> world \<Rightarrow> (reason + path) \<times> world" where
  "create E H docId w0 =
     (case run_hook BeforeCreate (beforeCreate H)
             ''An error has occured at beforeCreate() in create().'' (create_called docId w0) of
        (Some err, w1) \<Rightarrow> rethrow err w1
      | (None, w1) \<Rightarrow>
          (case new_doc_ref E (collection (inst w1)) docId of
             Inl err \<Rightarrow> rethrow err w1
           | Inr docRef \<Rightarrow>
               (let m = stamp_create E (snd docRef) (inst w1);
                    item = props m;
                    w2 = w1\<lparr>inst := m\<rparr>
                in case create_transaction (collection m) docRef item (db w2) of
                     Inl err \<Rightarrow>
                       rethrow err
                         (sendConsole SError (Text ''An error has occured at setDoc() in create().'') []
                            (emit EvAbort w2))
                   | Inr ws \<Rightarrow>
                       (case run_hook AfterCreate (afterCreate H)
                               ''An error has occured at afterCreate() in create().''
                               ((emit (EvCommit ws) w2)\<lparr>db := fold apply_write ws (db w2)\<rparr>) of
                          (Some err, w3) \<Rightarrow> rethrow err w3
                        | (None, w3) \<Rightarrow>
                            (Inr docRef,
                             sendConsole SInfo
                               (Text ''A document was successfully created in the %s collection with document id %s.'')
                               [VStr (collection (inst w3)), VStr (snd docRef)] w3)))))"

text \<open>
  \<^verbatim>\<open>Object.keys(this).forEach((key) => { if (key in data) this[key] = data[key] })\<close>.
\<close>

definition copy_key :: "obj \<Rightarrow> string \<Rightarrow> model \<Rightarrow> model" where
  "copy_key data key m = (case map_of data key of Some v \<Rightarrow> set_prop key v m | None \<Rightarrow> m)"

definition copy_fields :: "obj \<Rightarrow> model \<Rightarrow> model" where
  "copy_fields data m = fold (copy_key data) (map fst (props m)) m"

definition fetch :: "env \<Rightarrow> val option \<Rightarrow> world \<Rightarrow> (reason + unit) \<times> world" where
  "fetch E docId w0 =
     (let w1 = sendConsole SInfo (Text ''fetch() is called.'') [] w0
      in if \<not> truthy_opt docId then rethrow (ErrorObject FetchRequiresDocId) w1
         else (case doc_ref (collection (inst w1)) docId of
                 Inl err \<Rightarrow> rethrow err w1
               | Inr docRef \<Rightarrow>
                   (let w2 = emit (EvGetDoc docRef) w1
                    in case map_of (docs (db w2)) docRef of
                         Some data \<Rightarrow>
                           (Inr (),
                            (sendConsole SInfo
                               (Text ''The document corresponding to the specified document id (%s) has been fetched.'')
                               [VStr (snd docRef)] w2)\<lparr>inst := copy_fields data (inst w2)\<rparr>)
                       | None \<Rightarrow>
                           (Inr (),
                            (sendConsole SWarn
                               (Text ''The document corresponding to the specified document id (%s) does not exist. FireModel properties are initialized.'')
                               [VStr (snd docRef)] w2)\<lparr>inst := initialize None (inst w2)\<rparr>))))"

text \<open>\<^verbatim>\<open>const { createAt, createDate, ...item } = this\<close>.\<close>

definition update_payload :: "model \<Rightarrow> obj" where
  "update_payload m = filter (\<lambda>kv. fst kv \<noteq> ''createAt'' \<and> fst kv \<noteq> ''createDate'') (props m)"

definition update :: "env \<Rightarrow> hooks \<Rightarrow> world \<Rightarrow> (reason + path) \<times> world" where
  "update E H w0 =
     (let w1 = sendConsole SInfo (Text ''update() is called.'') [] w0
      in if \<not> truthy_opt (get_prop ''docId'' (inst w1))
         then rethrow (ErrorObject UpdateRequiresDocId) w1
         else (case run_hook BeforeUpdate (beforeUpdate H)
                      ''An error has occured at beforeUpdate() in update().'' w1 of
                 (Some err, w2) \<Rightarrow> rethrow err w2
               | (None, w2) \<Rightarrow>
                   (case doc_ref (collection (inst w2)) (get_prop ''docId'' (inst w2)) of
                      Inl err \<Rightarrow> rethrow err w2
                    | Inr docRef \<Rightarrow>
                        (let m = stamp_update E (inst w2);
                             item = update_payload m;
                             w3 = emit (EvUpdateDoc docRef item) (w2\<lparr>inst := m\<rparr>)
                         in case updateDoc docRef item (db w3) of
                              Inl err \<Rightarrow>
                                rethrow err
                                  (sendConsole SError (Text ''An error has occured at update().'') [] w3)
                            | Inr st \<Rightarrow>
                                (case run_hook AfterUpdate (afterUpdate H)
                                        ''An error has occured at afterUpdate() in update().''
                                        (w3\<lparr>db := st\<rparr>) of
                                   (Some err, w4) \<Rightarrow> rethrow err w4
                                 | (None, w4) \<Rightarrow>
                                     (Inr docRef,
                                      sendConsole SInfo
                                        (Text ''A document was successfully updated in the %s collection with document id %s.'')
                                        [VStr (collection (inst w4)), VStr (snd docRef)] w4))))))"

text \<open>
  \<^verbatim>\<open>#hasChild()\<close>: one query with \<^verbatim>\<open>limit(1)\<close> per declared dependency, in order; the
  first entry whose snapshot is not empty is returned, \<^verbatim>\<open>false\<close> (\<^const>\<open>None\<close>) when
  there is none. The second component lists the queries issued.
\<close>

definition getDocs_limit1 ::
  "env \<Rightarrow> store \<Rightarrow> string \<Rightarrow> string \<Rightarrow> string \<Rightarrow> val \<Rightarrow> (path \<times> obj) list" where
  "getDocs_limit1 E st col fld op v =
     take 1 (filter (\<lambda>pd. fst (fst pd) = col \<and> where_holds E op (map_of (snd pd) fld) v) (docs st))"

fun hasChild :: "env \<Rightarrow> store \<Rightarrow> val \<Rightarrow> dependency list \<Rightarrow> dependency option \<times> event list" where
  "hasChild E st docId [] = (None, [])"
| "hasChild E st docId (item # rest) =
     (let snapshot = getDocs_limit1 E st (dep_collection item) (dep_field item) (dep_condition item) docId;
          ev = EvQuery (dep_collection item) (dep_field item) (dep_condition item) docId
      in if snapshot \<noteq> [] then (Some item, [ev])
         else (case hasChild E st docId rest of (r, evs) \<Rightarrow> (r, ev # evs)))"

definition delete :: "env \<Rightarrow> hooks \<Rightarrow> world \<Rightarrow> (reason + unit) \<times> world" where
  "delete E H w0 =
     (let w1 = sendConsole SInfo (Text ''delete() is called.'') [] w0
      in case get_prop ''docId'' (inst w1) of
           None \<Rightarrow> rethrow (ErrorObject DeleteRequiresDocId) w1
         | Some docId \<Rightarrow>
             if \<not> truthy docId then rethrow (ErrorObject DeleteRequiresDocId) w1
             else (case hasChild E (db w1) docId (hasMany (inst w1)) of
                     (Some item, evs) \<Rightarrow>
                       rethrow (ErrorObject (DependencyConflict (dep_collection item) docId))
                         (w1\<lparr>trace := trace w1 @ evs\<rparr>)
                   | (None, evs) \<Rightarrow>
                       (case run_hook BeforeDelete (beforeDelete H)
                               ''An error has occured at beforeDelete() in delete().''
                               (w1\<lparr>trace := trace w1 @ evs\<rparr>) of
                          (Some err, w2) \<Rightarrow> rethrow err w2
                        | (None, w2) \<Rightarrow>
                            (case doc_ref (collection (inst w2)) (get_prop ''docId'' (inst w2)) of
                               Inl err \<Rightarrow> rethrow err w2
                             | Inr docRef \<Rightarrow>
                                 (case run_hook AfterDelete (afterDelete H)
                                         ''An error has occured at afterDelete() in delete().''
                                         ((emit (EvDeleteDoc docRef) w2)\<lparr>db := deleteDoc docRef (db w2)\<rparr>) of
                                    (Some err, w3) \<Rightarrow> rethrow err w3
                                  | (None, w3) \<Rightarrow>
                                      (Inr (),
                                       sendConsole SInfo
                                         (Text ''A document was successfully deleted in the %s collection with document id %s.'')
                                         [VStr (collection (inst w3)), VStr (snd docRef)] w3))))))"

section \<open>Specification-side notions and sample data\<close>




text \<open>The six properties every instance gets from \<^verbatim>\<open>initialize\<close>.\<close>

definition base_fields :: "string list" where
  "base_fields = [''docId'', ''createAt'', ''createDate'', ''updateAt'', ''updateDate'', ''uid'']"

text \<open>Sample data on which the theorems below are exercised.\<close>

definition demo_env :: env where
  "demo_env = \<lparr>now_utc = 1700000000000, now_jst = ''2023/11/15 7:13:20'',
                current_uid = Some (VStr ''u1''), auto_id = ''auto1'',
                where_holds = (\<lambda>op a b. op = ''=='' \<and> a = Some b)\<rparr>"

definition world_of :: "model \<Rightarrow> store \<Rightarrow> world" where
  "world_of m st = \<lparr>inst = m, db = st, console = [], trace = []\<rparr>"

definition numbered_store :: "int \<Rightarrow> int \<Rightarrow> store" where
  "numbered_store cur len =
     \<lparr>docs = [],
      autonumbers = [(''Customers'',
        \<lparr>an_current = cur, an_length = len, an_field = ''code'', an_condition = True\<rparr>)]\<rparr>"

definition demo_customer :: model where
  "demo_customer =
     set_prop ''name'' (VStr ''Ab c'') ((construct ''Customers'')\<lparr>tokenFields := [''name'']\<rparr>)"

text \<open>
  The query \<^verbatim>\<open>#hasChild\<close> issues for a dependency, and whether the dependency has a
  matching child record in the store.
\<close>

definition query_event :: "val \<Rightarrow> dependency \<Rightarrow> event" where
  "query_event docId d = EvQuery (dep_collection d) (dep_field d) (dep_condition d) docId"

definition has_match :: "env \<Rightarrow> store \<Rightarrow> val \<Rightarrow> dependency \<Rightarrow> bool" where
  "has_match E st docId d =
     (getDocs_limit1 E st (dep_collection d) (dep_field d) (dep_condition d) docId \<noteq> [])"

definition demo_parent :: model where
  "demo_parent =
     set_prop ''docId'' (VStr ''c1'')
       ((construct ''Customers'')
          \<lparr>hasMany := [\<lparr>dep_collection = ''Orders'', dep_field = ''customerId'', dep_condition = ''==''\<rparr>,
                       \<lparr>dep_collection = ''Invoices'', dep_field = ''customerId'', dep_condition = ''==''\<rparr>,
                       \<lparr>dep_collection = ''Visits'', dep_field = ''customerId'', dep_condition = ''==''\<rparr>]\<rparr>)"

definition demo_children :: store where
  "demo_children =
     \<lparr>docs = [((''Customers'', ''c1''), [(''docId'', VStr ''c1''), (''createAt'', VNum 5),
                                            (''name'', VStr ''Alice''), (''legacy'', VStr ''kept'')]),
              ((''Invoices'', ''i1''), [(''docId'', VStr ''i1''), (''customerId'', VStr ''c1'')]),
              ((''Visits'', ''v1''), [(''docId'', VStr ''v1''), (''customerId'', VStr ''c1'')])],
      autonumbers = []\<rparr>"

text \<open>
  An entity with one more property, \<^verbatim>\<open>name\<close>, in its empty initial state, and a hook
  that rejects with a given reason and touches nothing.
\<close>

definition demo_entity :: model where
  "demo_entity = set_prop ''name'' (VStr []) (construct ''Customers'')"

definition rejecting :: "reason \<Rightarrow> hook" where
  "rejecting r m st = (Some r, m, st)"

section \<open>Verified properties\<close>

subsection \<open>Token index\<close>

lemma map_of_fold_update:
  "map_of (fold (\<lambda>(k, v) ob. AList.update k v ob) arr acc) k =
     (case map_of (rev arr) k of Some v \<Rightarrow> Some v | None \<Rightarrow> map_of acc k)"
  by (induction arr arbitrary: acc) (auto simp: update_conv' split: option.splits)

lemma distinct_fold_update:
  "distinct (map fst acc) \<Longrightarrow> distinct (map fst (fold (\<lambda>(k, v) ob. AList.update k v ob) arr acc))"
  by (induction arr arbitrary: acc) (auto simp: distinct_update)


lemma distinct_fromEntries: "distinct (map fst (fromEntries arr))"
  by (simp add: fromEntries_def distinct_fold_update)










subsection \<open>Decimal strings and the numbering code\<close>


lemma digit_char_0: "digit_char 0 = CHR ''0''"
  unfolding digit_char_def by code_simp

lemma digit_char_1: "digit_char 1 = CHR ''1''"
  unfolding digit_char_def by code_simp




lemma digits_power10: "digits_of_nat (10 ^ L) = CHR ''1'' # replicate L CHR ''0''"
proof (induction L)
  case 0
  show ?case using digit_char_1 by (simp add: digits_of_nat.simps [of "Suc 0"])
next
  case (Suc L)
  have "\<not> (10::nat) ^ Suc L < 10" by simp
  then show ?case using Suc
    by (subst digits_of_nat.simps) (simp add: digit_char_0 replicate_append_same)
qed



lemma slice_pad_rollover:
  assumes L: "0 < L"
  shows "drop (length (replicate (L - 1) CHR ''0'' @ digits_of_nat (10 ^ L)) - L)
              (replicate (L - 1) CHR ''0'' @ digits_of_nat (10 ^ L))
         = replicate L CHR ''0''"
  using L by (simp add: digits_power10)



lemma next_code_rollover:
  assumes len: "1 \<le> an_length a" and roll: "an_current a + 1 = 10 ^ nat (an_length a)"
  shows "next_code col a = Inl (ErrorObject (NumberingExhausted col))"
proof -
  let ?L = "nat (an_length a)"
  have L: "0 < ?L" using len by simp
  have nn: "nat (an_current a + 1) = 10 ^ ?L" using roll
    by (simp add: nat_power_eq [of 10])
  have "\<not> an_current a + 1 < 0" using roll by simp
  then have str: "number_to_string (an_current a + 1) = digits_of_nat (10 ^ ?L)"
    unfolding number_to_string_def nn [symmetric] by simp
  have code: "slice_last (an_length a) (join_zeros (an_length a) @ digits_of_nat (10 ^ ?L))
           = replicate ?L CHR ''0''"
    using len slice_pad_rollover [OF L] by (simp add: slice_last_def join_zeros_def)
  have mx: "join_zeros (an_length a + 1) = replicate ?L CHR ''0''"
    using len by (simp add: join_zeros_def nat_add_distrib)
  show ?thesis using len by (simp add: next_code_def Let_def str code mx)
qed


subsection \<open>Reading the world after a step\<close>

lemma sendConsole_fields [simp]:
  "inst (sendConsole ty msg ps w) = inst w" "db (sendConsole ty msg ps w) = db w"
  "trace (sendConsole ty msg ps w) = trace w"
  "console (sendConsole ty msg ps w) = console w @ [(ty, msg, ps)]"
  by (simp_all add: sendConsole_def)

lemma emit_fields [simp]:
  "inst (emit ev w) = inst w" "db (emit ev w) = db w"
  "trace (emit ev w) = trace w @ [ev]" "console (emit ev w) = console w"
  by (simp_all add: emit_def)

lemma create_called_fields [simp]:
  "inst (create_called d w) = inst w" "db (create_called d w) = db w"
  "trace (create_called d w) = trace w"
  by (simp_all add: create_called_def split: option.splits)

lemma set_prop_fields [simp]:
  "collection (set_prop k v m) = collection m" "hasMany (set_prop k v m) = hasMany m"
  "tokenFields (set_prop k v m) = tokenFields m"
  "props (set_prop k v m) = AList.update k v (props m)"
  by (simp_all add: set_prop_def)

lemma get_set_prop [simp]: "get_prop k (set_prop k' v m) = (if k = k' then Some v else get_prop k m)"
  by (simp add: get_prop_def update_conv')

lemma stamp_fields [simp]:
  "collection (stamp_update E m) = collection m" "collection (stamp_create E i m) = collection m"
  "hasMany (stamp_update E m) = hasMany m" "tokenFields (stamp_update E m) = tokenFields m"
  by (simp_all add: stamp_update_def stamp_create_def)

lemma rethrow_fields [simp]:
  "inst (snd (rethrow err w)) = inst w" "db (snd (rethrow err w)) = db w"
  "trace (snd (rethrow err w)) = trace w"
  by (simp_all add: rethrow_def split: option.splits)

lemma rethrow_error [simp]: "fst (rethrow (ErrorObject e) w) = Inl (ErrorObject e)"
  by (simp add: rethrow_def)

lemma run_hook_resolved:
  "h (inst w) (db w) = (None, m, st) \<Longrightarrow>
   run_hook name h msg w = (None, (emit (EvHook name) w)\<lparr>inst := m, db := st\<rparr>)"
  by (simp add: run_hook_def)

lemma after_hook_db:
  "db (snd (case run_hook n h msg w of
              (None, w') \<Rightarrow> (Inr x, sendConsole ty t (ps w') w')
            | (Some err, w') \<Rightarrow> rethrow err w'))
   = snd (snd (h (inst w) (db w)))"
  by (cases "h (inst w) (db w)" rule: prod_cases3)
     (auto simp: run_hook_def split: option.splits)

lemma after_hook_trace:
  "trace (snd (case run_hook n h msg w of
              (None, w') \<Rightarrow> (Inr x, sendConsole ty t (ps w') w')
            | (Some err, w') \<Rightarrow> rethrow err w'))
   = trace w @ [EvHook n]"
  by (cases "h (inst w) (db w)" rule: prod_cases3)
     (auto simp: run_hook_def split: option.splits)

subsection \<open>create() and the numbering\<close>

text \<open>
  Claim C1, amended. When numbering is enabled for the collection (its autonumber record
  exists and its condition is true) and the next value is exactly \<open>10 ^ length\<close>, the
  first value that no longer fits (for example \<open>length = 2\<close>, \<open>current = 99\<close>),
  \<^verbatim>\<open>create()\<close> fails with the exhaustion error, the transaction is aborted, and the
  store is the one \<^verbatim>\<open>beforeCreate\<close> left: no document is written and \<open>current\<close> keeps
  its value.
\<close>

theorem create_exhausted_aborts:
  assumes before: "beforeCreate H (inst w) (db w) = (None, m1, st1)"
      and ref: "new_doc_ref E (collection m1) docId = Inr docRef"
      and an: "map_of (autonumbers st1) (collection m1) = Some a" "an_condition a"
      and rng: "1 \<le> an_length a" "an_current a + 1 = 10 ^ nat (an_length a)"
  shows "fst (create E H docId w) = Inl (ErrorObject (NumberingExhausted (collection m1))) \<and>
         db (snd (create E H docId w)) = st1 \<and>
         trace (snd (create E H docId w)) = trace w @ [EvHook BeforeCreate, EvAbort]"
proof -
  have hook: "run_hook BeforeCreate (beforeCreate H)
                ''An error has occured at beforeCreate() in create().'' (create_called docId w)
              = (None, (emit (EvHook BeforeCreate) (create_called docId w))\<lparr>inst := m1, db := st1\<rparr>)"
    using before by (simp add: run_hook_resolved)
  have tx: "create_transaction (collection m1) docRef item st1
              = Inl (ErrorObject (NumberingExhausted (collection m1)))" for item
    using an next_code_rollover [OF rng, of "collection m1"] by (simp add: create_transaction_def)
  show ?thesis
    by (simp add: create_def hook ref tx Let_def)
qed





text \<open>The theorem at \<open>length = 2\<close>, \<open>current = 99\<close>, with the hooks of the base class.\<close>

theorem create_exhausted_aborts_witness:
  "fst (create demo_env base_hooks None (world_of (construct ''Customers'') (numbered_store 99 2)))
     = Inl (ErrorObject (NumberingExhausted ''Customers'')) \<and>
   db (snd (create demo_env base_hooks None (world_of (construct ''Customers'') (numbered_store 99 2))))
     = numbered_store 99 2 \<and>
   trace (snd (create demo_env base_hooks None (world_of (construct ''Customers'') (numbered_store 99 2))))
     = [EvHook BeforeCreate, EvAbort]"
proof -
  let ?w = "world_of (construct ''Customers'') (numbered_store 99 2)"
  let ?a = "\<lparr>an_current = 99, an_length = 2, an_field = ''code'', an_condition = True\<rparr>"
  have h1: "beforeCreate base_hooks (inst ?w) (db ?w) = (None, construct ''Customers'', numbered_store 99 2)"
    by (simp add: base_hooks_def resolve_def world_of_def)
  have c: "collection (construct ''Customers'') = ''Customers''"
    by (simp add: construct_def initialize_def Let_def set_prop_def)
  have h2: "new_doc_ref demo_env (collection (construct ''Customers'')) None = Inr (''Customers'', ''auto1'')"
    by (simp add: c new_doc_ref_def demo_env_def)
  have h3: "map_of (autonumbers (numbered_store 99 2)) (collection (construct ''Customers'')) = Some ?a"
    by (simp add: c numbered_store_def)
  have h4: "an_condition ?a" "1 \<le> an_length ?a" "an_current ?a + 1 = 10 ^ nat (an_length ?a)"
    by simp_all
  show ?thesis
    using create_exhausted_aborts [OF h1 h2 h3 h4] by (simp add: c world_of_def)
qed

text \<open>
  As claim C1 is worded, every next value that does not fit aborts. At \<open>length = 1\<close>,
  \<open>current = 10\<close> the next value 11 does not fit, yet the call succeeds, writes the
  document and moves \<open>current\<close> to 11.
\<close>

theorem create_out_of_range_counterexample:
  "(10::int) ^ nat 1 \<le> 10 + 1 \<and>
   fst (create demo_env base_hooks None (world_of (construct ''Customers'') (numbered_store 10 1)))
     = Inr (''Customers'', ''auto1'') \<and>
   map_of (autonumbers (db (snd (create demo_env base_hooks None
       (world_of (construct ''Customers'') (numbered_store 10 1)))))) ''Customers''
     = Some \<lparr>an_current = 11, an_length = 1, an_field = ''code'', an_condition = True\<rparr> \<and>
   map_of (docs (db (snd (create demo_env base_hooks None
       (world_of (construct ''Customers'') (numbered_store 10 1)))))) (''Customers'', ''auto1'')
     \<noteq> None"
  by code_simp





subsection \<open>update() and delete() without a document id\<close>

text \<open>
  Claim C8. On an instance whose \<^verbatim>\<open>docId\<close> is unset (empty, or any other falsy value),
  \<^verbatim>\<open>update()\<close> and \<^verbatim>\<open>delete()\<close> each fail with their state error. Nothing but the console
  changes: the instance, the store and the trace of hook and store calls are as before,
  whatever the hooks are.
\<close>

theorem missing_docId_rejected:
  assumes "\<not> truthy_opt (get_prop ''docId'' (inst w))"
  shows "update E H w =
           (Inl (ErrorObject UpdateRequiresDocId),
            w\<lparr>console := console w @ [(SInfo, Text ''update() is called.'', []),
                                       (SError, MessageOf UpdateRequiresDocId, [])]\<rparr>) \<and>
         delete E H w =
           (Inl (ErrorObject DeleteRequiresDocId),
            w\<lparr>console := console w @ [(SInfo, Text ''delete() is called.'', []),
                                       (SError, MessageOf DeleteRequiresDocId, [])]\<rparr>)"
  using assms
  by (auto simp: update_def delete_def Let_def rethrow_def sendConsole_def get_prop_def
           split: option.splits)

subsection \<open>delete() and the dependency check\<close>

lemma hasChild_first_match:
  assumes "\<forall>d\<in>set pre. \<not> has_match E st v d" and "has_match E st v e"
  shows "hasChild E st v (pre @ e # post) = (Some e, map (query_event v) (pre @ [e]))"
  using assms
  by (induction pre) (simp_all add: has_match_def query_event_def Let_def)

lemma hasChild_none:
  assumes "\<forall>d\<in>set ds. \<not> has_match E st v d"
  shows "hasChild E st v ds = (None, map (query_event v) ds)"
  using assms
  by (induction ds) (simp_all add: has_match_def query_event_def Let_def)

text \<open>
  Claim C4. On an instance with a document id, if some declared dependency has a
  matching child record, \<^verbatim>\<open>delete()\<close> fails with the dependency-conflict error that names
  the collection of the first such entry and the document id. It has issued one query
  for each entry up to and including that one, in order, and none for the later ones;
  the instance and the store are untouched and no hook has run.
\<close>

theorem delete_refused_on_dependents:
  assumes docId: "get_prop ''docId'' (inst w) = Some v" "truthy v"
      and dep: "\<exists>d\<in>set (hasMany (inst w)). has_match E (db w) v d"
  shows "\<exists>pre e post.
           hasMany (inst w) = pre @ e # post \<and>
           (\<forall>d\<in>set pre. \<not> has_match E (db w) v d) \<and> has_match E (db w) v e \<and>
           delete E H w =
             (Inl (ErrorObject (DependencyConflict (dep_collection e) v)),
              w\<lparr>console := console w @ [(SInfo, Text ''delete() is called.'', []),
                    (SError, MessageOf (DependencyConflict (dep_collection e) v), [])],
                 trace := trace w @ map (query_event v) (pre @ [e])\<rparr>)"
proof -
  from split_list_first_prop [OF dep] obtain pre e post where
    sp: "hasMany (inst w) = pre @ e # post" "has_match E (db w) v e"
        "\<forall>d\<in>set pre. \<not> has_match E (db w) v d"
    by blast
  have hc: "hasChild E (db w) v (hasMany (inst w)) = (Some e, map (query_event v) (pre @ [e]))"
    unfolding sp(1) using sp(3) sp(2) by (rule hasChild_first_match)
  have "delete E H w =
             (Inl (ErrorObject (DependencyConflict (dep_collection e) v)),
              w\<lparr>console := console w @ [(SInfo, Text ''delete() is called.'', []),
                    (SError, MessageOf (DependencyConflict (dep_collection e) v), [])],
                 trace := trace w @ map (query_event v) (pre @ [e])\<rparr>)"
    using docId hc
    by (simp add: delete_def Let_def rethrow_def sendConsole_def get_prop_def)
  with sp show ?thesis by blast
qed

text \<open>The theorem on a freshly constructed instance, whose \<^verbatim>\<open>docId\<close> is the empty string.\<close>

theorem missing_docId_rejected_witness:
  "update demo_env base_hooks (world_of (construct ''Customers'') demo_children)
     = (Inl (ErrorObject UpdateRequiresDocId),
        (world_of (construct ''Customers'') demo_children)
          \<lparr>console := [(SInfo, Text ''update() is called.'', []),
                       (SError, MessageOf UpdateRequiresDocId, [])]\<rparr>) \<and>
   delete demo_env base_hooks (world_of (construct ''Customers'') demo_children)
     = (Inl (ErrorObject DeleteRequiresDocId),
        (world_of (construct ''Customers'') demo_children)
          \<lparr>console := [(SInfo, Text ''delete() is called.'', []),
                       (SError, MessageOf DeleteRequiresDocId, [])]\<rparr>)"
proof -
  have h: "\<not> truthy_opt (get_prop ''docId'' (inst (world_of (construct ''Customers'') demo_children)))"
    by (simp add: world_of_def construct_def initialize_def Let_def js_or_def item_prop_def)
  show ?thesis
    using missing_docId_rejected [OF h, of demo_env base_hooks] by (simp add: world_of_def)
qed

text \<open>
  The theorem on a customer with three declared dependencies, of which the second and
  the third have a child record: the error names the second, the third is never queried.
\<close>

theorem delete_refused_on_dependents_witness:
  "(\<exists>pre e post.
      hasMany (inst (world_of demo_parent demo_children)) = pre @ e # post \<and>
      (\<forall>d\<in>set pre. \<not> has_match demo_env (db (world_of demo_parent demo_children)) (VStr ''c1'') d) \<and>
      has_match demo_env (db (world_of demo_parent demo_children)) (VStr ''c1'') e \<and>
      delete demo_env base_hooks (world_of demo_parent demo_children) =
        (Inl (ErrorObject (DependencyConflict (dep_collection e) (VStr ''c1''))),
         (world_of demo_parent demo_children)
           \<lparr>console := console (world_of demo_parent demo_children) @
                [(SInfo, Text ''delete() is called.'', []),
                 (SError, MessageOf (DependencyConflict (dep_collection e) (VStr ''c1'')), [])],
            trace := trace (world_of demo_parent demo_children) @
                map (query_event (VStr ''c1'')) (pre @ [e])\<rparr>)) \<and>
   fst (delete demo_env base_hooks (world_of demo_parent demo_children))
     = Inl (ErrorObject (DependencyConflict ''Invoices'' (VStr ''c1''))) \<and>
   trace (snd (delete demo_env base_hooks (world_of demo_parent demo_children)))
     = [EvQuery ''Orders'' ''customerId'' ''=='' (VStr ''c1''),
        EvQuery ''Invoices'' ''customerId'' ''=='' (VStr ''c1'')]"
proof -
  let ?w = "world_of demo_parent demo_children"
  have h1: "get_prop ''docId'' (inst ?w) = Some (VStr ''c1'')"
    by (simp add: world_of_def demo_parent_def)
  have h2: "truthy (VStr ''c1'')" by simp
  have m: "has_match demo_env (db ?w) (VStr ''c1'')
             \<lparr>dep_collection = ''Invoices'', dep_field = ''customerId'', dep_condition = ''==''\<rparr>"
    by code_simp
  have "\<lparr>dep_collection = ''Invoices'', dep_field = ''customerId'', dep_condition = ''==''\<rparr>
          \<in> set (hasMany (inst ?w))"
    by (simp add: world_of_def demo_parent_def)
  with m have h3: "\<exists>d\<in>set (hasMany (inst ?w)). has_match demo_env (db ?w) (VStr ''c1'') d"
    by blast
  have e1: "fst (delete demo_env base_hooks ?w)
     = Inl (ErrorObject (DependencyConflict ''Invoices'' (VStr ''c1'')))"
    by code_simp
  have e2: "trace (snd (delete demo_env base_hooks ?w))
     = [EvQuery ''Orders'' ''customerId'' ''=='' (VStr ''c1''),
        EvQuery ''Invoices'' ''customerId'' ''=='' (VStr ''c1'')]"
    by code_simp
  show ?thesis
    using delete_refused_on_dependents [OF h1 h2 h3, of base_hooks] e1 e2 by blast
qed

subsection \<open>The tokenMap property\<close>

text \<open>
  Claim C7. With no token field declared, reading \<^verbatim>\<open>tokenMap\<close> yields \<^verbatim>\<open>null\<close>, which is
  not the empty map. Assigning to \<^verbatim>\<open>tokenMap\<close> leaves the instance as it is, so the next
  read is unchanged; and the read follows the current field values: after a declared
  field is assigned a string, the map read is the token map of that string.
\<close>

theorem tokenMap_derived:
  "(tokenFields m = [] \<longrightarrow> tokenMap_get m = Inr None \<and> tokenMap_get m \<noteq> Inr (Some [])) \<and>
   tokenMap_set v m = m \<and>
   tokenMap_get (tokenMap_set v m) = tokenMap_get m \<and>
   (tokenFields m = [f] \<longrightarrow>
      tokenMap_get (set_prop f (VStr s) m) = Inr (Some (getNgramTokenMap s)))"
  by (simp add: tokenMap_get_def tokenMap_set_def update_conv' getNgramTokenMap_def)

text \<open>
  The theorem on a fresh instance (no token fields) and on an instance whose token
  field \<^verbatim>\<open>name\<close> is reassigned.
\<close>

theorem tokenMap_derived_witness:
  "tokenMap_get (construct ''Customers'') = Inr None \<and>
   tokenMap_get (tokenMap_set (VStr ''x'') demo_customer) = tokenMap_get demo_customer \<and>
   tokenMap_get (set_prop ''name'' (VStr ''xy'') demo_customer)
     = Inr (Some [(''x'', VBool True), (''y'', VBool True), (''xy'', VBool True)])"
proof -
  have t0: "tokenFields (construct ''Customers'') = []"
    by (simp add: construct_def initialize_def Let_def)
  have t1: "tokenFields demo_customer = [''name'']"
    by (simp add: demo_customer_def)
  have g: "getNgramTokenMap ''xy'' = [(''x'', VBool True), (''y'', VBool True), (''xy'', VBool True)]"
    by code_simp
  show ?thesis
    using tokenMap_derived [of "construct ''Customers''" "VStr ''x''" "''name''" "''xy''"]
          tokenMap_derived [of demo_customer "VStr ''x''" "''name''" "''xy''"] t0 t1 g
    by simp
qed

subsection \<open>fetch()\<close>

lemma copy_key_keys:
  "key \<in> fst ` set (props m) \<Longrightarrow> map fst (props (copy_key data key m)) = map fst (props m)"
  by (auto simp: copy_key_def update_keys split: option.splits)

lemma copy_key_frame [simp]:
  "collection (copy_key data key m) = collection m"
  "hasMany (copy_key data key m) = hasMany m"
  "tokenFields (copy_key data key m) = tokenFields m"
  by (simp_all add: copy_key_def split: option.splits)

lemma get_prop_copy_key:
  "get_prop k (copy_key data key m) =
     (if k = key then (case map_of data k of Some v \<Rightarrow> Some v | None \<Rightarrow> get_prop k m)
      else get_prop k m)"
  by (simp add: copy_key_def split: option.splits)

lemma fold_copy_key:
  "set ks \<subseteq> fst ` set (props m) \<Longrightarrow>
   map fst (props (fold (copy_key data) ks m)) = map fst (props m) \<and>
   collection (fold (copy_key data) ks m) = collection m \<and>
   hasMany (fold (copy_key data) ks m) = hasMany m \<and>
   tokenFields (fold (copy_key data) ks m) = tokenFields m \<and>
   (\<forall>k. get_prop k (fold (copy_key data) ks m) =
      (if k \<in> set ks then (case map_of data k of Some v \<Rightarrow> Some v | None \<Rightarrow> get_prop k m)
       else get_prop k m))"
proof (induction ks arbitrary: m)
  case Nil
  then show ?case by simp
next
  case (Cons key ks)
  let ?m = "copy_key data key m"
  have keys: "map fst (props ?m) = map fst (props m)"
    using Cons.prems by (simp add: copy_key_keys)
  then have "fst ` set (props ?m) = fst ` set (props m)"
    by (metis set_map)
  then have sub: "set ks \<subseteq> fst ` set (props ?m)" using Cons.prems by simp
  from Cons.IH [OF sub] show ?case
    using keys by (auto simp: get_prop_copy_key split: option.splits)
qed

lemma copy_fields_props:
  "map fst (props (copy_fields data m)) = map fst (props m) \<and>
   (\<forall>k. get_prop k (copy_fields data m) =
      (if k \<in> fst ` set (props m)
       then (case map_of data k of Some v \<Rightarrow> Some v | None \<Rightarrow> get_prop k m)
       else None))"
proof -
  have sub: "set (map fst (props m)) \<subseteq> fst ` set (props m)" by simp
  have none: "\<And>k. k \<notin> fst ` set (props m) \<Longrightarrow> get_prop k m = None"
    by (simp add: get_prop_def map_of_eq_None_iff)
  from fold_copy_key [OF sub, of data] show ?thesis
    unfolding copy_fields_def using none by auto
qed

lemma get_prop_initialize_None:
  "get_prop k (initialize None m) =
     (if k = ''docId'' \<or> k = ''createDate'' \<or> k = ''updateDate'' \<or> k = ''uid'' then Some (VStr [])
      else if k = ''createAt'' \<or> k = ''updateAt'' then Some VNull
      else get_prop k m)"
  by (simp add: initialize_def Let_def js_or_def item_prop_def)

lemma get_prop_construct:
  "get_prop k (construct col) =
     (if k = ''docId'' \<or> k = ''createDate'' \<or> k = ''updateDate'' \<or> k = ''uid'' then Some (VStr [])
      else if k = ''createAt'' \<or> k = ''updateAt'' then Some VNull
      else None)"
  by (simp add: construct_def get_prop_initialize_None) (simp add: get_prop_def)

text \<open>
  Claim C9, amended. For a non-empty document id that names no document, \<^verbatim>\<open>fetch\<close>
  raises no error, leaves the store alone and runs \<^verbatim>\<open>initialize()\<close>: the six base
  properties return to their constructed values and every other property of the instance
  keeps its value, so an instance with no property beyond the six is back in its
  constructed state. For a document that is present, \<^verbatim>\<open>fetch\<close> overwrites exactly the
  properties of the instance that the payload also has, adds none, and leaves the rest.
\<close>

theorem fetch_missing_and_present:
  assumes s: "s \<noteq> []"
  shows "(map_of (docs (db w)) (collection (inst w), s) = None \<longrightarrow>
            fst (fetch E (Some (VStr s)) w) = Inr () \<and>
            db (snd (fetch E (Some (VStr s)) w)) = db w \<and>
            inst (snd (fetch E (Some (VStr s)) w)) = initialize None (inst w) \<and>
            (\<forall>k\<in>set base_fields.
               get_prop k (inst (snd (fetch E (Some (VStr s)) w)))
                 = get_prop k (construct (collection (inst w)))) \<and>
            (\<forall>k. k \<notin> set base_fields \<longrightarrow>
               get_prop k (inst (snd (fetch E (Some (VStr s)) w))) = get_prop k (inst w)) \<and>
            (fst ` set (props (inst w)) \<subseteq> set base_fields \<longrightarrow>
               (\<forall>k. get_prop k (inst (snd (fetch E (Some (VStr s)) w)))
                      = get_prop k (construct (collection (inst w)))))) \<and>
         (\<forall>data. map_of (docs (db w)) (collection (inst w), s) = Some data \<longrightarrow>
            fst (fetch E (Some (VStr s)) w) = Inr () \<and>
            db (snd (fetch E (Some (VStr s)) w)) = db w \<and>
            map fst (props (inst (snd (fetch E (Some (VStr s)) w)))) = map fst (props (inst w)) \<and>
            (\<forall>k. get_prop k (inst (snd (fetch E (Some (VStr s)) w))) =
               (if k \<in> fst ` set (props (inst w))
                then (case map_of data k of Some v \<Rightarrow> Some v | None \<Rightarrow> get_prop k (inst w))
                else None)))"
proof (intro conjI impI allI)
  assume absent: "map_of (docs (db w)) (collection (inst w), s) = None"
  have f: "fetch E (Some (VStr s)) w =
      (Inr (), (sendConsole SWarn
         (Text ''The document corresponding to the specified document id (%s) does not exist. FireModel properties are initialized.'')
         [VStr s] (emit (EvGetDoc (collection (inst w), s))
            (sendConsole SInfo (Text ''fetch() is called.'') [] w)))\<lparr>inst := initialize None (inst w)\<rparr>)"
    using s absent by (simp add: fetch_def Let_def)
  show "fst (fetch E (Some (VStr s)) w) = Inr ()" by (simp add: f)
  show "db (snd (fetch E (Some (VStr s)) w)) = db w" by (simp add: f)
  show i: "inst (snd (fetch E (Some (VStr s)) w)) = initialize None (inst w)" by (simp add: f)
  show b: "\<forall>k\<in>set base_fields.
               get_prop k (inst (snd (fetch E (Some (VStr s)) w)))
                 = get_prop k (construct (collection (inst w)))"
    unfolding i by (simp add: base_fields_def get_prop_initialize_None get_prop_construct)
  show "\<And>k. k \<notin> set base_fields \<Longrightarrow>
               get_prop k (inst (snd (fetch E (Some (VStr s)) w))) = get_prop k (inst w)"
    unfolding i by (simp add: base_fields_def get_prop_initialize_None)
  show "\<And>k. fst ` set (props (inst w)) \<subseteq> set base_fields \<Longrightarrow>
          get_prop k (inst (snd (fetch E (Some (VStr s)) w)))
            = get_prop k (construct (collection (inst w)))"
  proof -
    fix k assume sub: "fst ` set (props (inst w)) \<subseteq> set base_fields"
    show "get_prop k (inst (snd (fetch E (Some (VStr s)) w)))
            = get_prop k (construct (collection (inst w)))"
    proof (cases "k \<in> set base_fields")
      case True
      then show ?thesis using b by blast
    next
      case False
      then have "k \<notin> fst ` set (props (inst w))" using sub by blast
      then have "get_prop k (inst w) = None" by (simp add: get_prop_def map_of_eq_None_iff)
      then show ?thesis using False unfolding i
        by (simp add: base_fields_def get_prop_initialize_None get_prop_construct)
    qed
  qed
next
  fix data
  assume present: "map_of (docs (db w)) (collection (inst w), s) = Some data"
  have f: "fetch E (Some (VStr s)) w =
      (Inr (), (sendConsole SInfo
         (Text ''The document corresponding to the specified document id (%s) has been fetched.'')
         [VStr s] (emit (EvGetDoc (collection (inst w), s))
            (sendConsole SInfo (Text ''fetch() is called.'') [] w)))\<lparr>inst := copy_fields data (inst w)\<rparr>)"
    using s present by (simp add: fetch_def Let_def)
  show "fst (fetch E (Some (VStr s)) w) = Inr ()" by (simp add: f)
  show "db (snd (fetch E (Some (VStr s)) w)) = db w" by (simp add: f)
  show "map fst (props (inst (snd (fetch E (Some (VStr s)) w)))) = map fst (props (inst w))"
    using copy_fields_props [of data "inst w"] by (simp add: f)
  show "\<And>k. get_prop k (inst (snd (fetch E (Some (VStr s)) w))) =
               (if k \<in> fst ` set (props (inst w))
                then (case map_of data k of Some v \<Rightarrow> Some v | None \<Rightarrow> get_prop k (inst w))
                else None)"
    using copy_fields_props [of data "inst w"] by (simp add: f)
qed

text \<open>
  The theorem on an entity with a \<^verbatim>\<open>name\<close>, fetched at a missing and at a present id:
  the payload's \<^verbatim>\<open>legacy\<close> field is not copied, \<^verbatim>\<open>uid\<close> is not in the payload and stays.
\<close>

theorem fetch_missing_and_present_witness:
  "fst (fetch demo_env (Some (VStr ''zz'')) (world_of demo_entity demo_children)) = Inr () \<and>
   get_prop ''docId'' (inst (snd (fetch demo_env (Some (VStr ''zz'')) (world_of demo_entity demo_children))))
     = Some (VStr []) \<and>
   get_prop ''name'' (inst (snd (fetch demo_env (Some (VStr ''c1'')) (world_of demo_entity demo_children))))
     = Some (VStr ''Alice'') \<and>
   get_prop ''legacy'' (inst (snd (fetch demo_env (Some (VStr ''c1'')) (world_of demo_entity demo_children))))
     = None \<and>
   get_prop ''uid'' (inst (snd (fetch demo_env (Some (VStr ''c1'')) (world_of demo_entity demo_children))))
     = Some (VStr [])"
proof -
  let ?w = "world_of demo_entity demo_children"
  have c: "collection (inst ?w) = ''Customers''"
    by (simp add: world_of_def demo_entity_def construct_def initialize_def Let_def)
  have h1: "map_of (docs (db ?w)) (collection (inst ?w), ''zz'') = None"
    unfolding c by (simp add: world_of_def demo_children_def)
  have h2: "map_of (docs (db ?w)) (collection (inst ?w), ''c1'')
              = Some [(''docId'', VStr ''c1''), (''createAt'', VNum 5),
                      (''name'', VStr ''Alice''), (''legacy'', VStr ''kept'')]"
    unfolding c by (simp add: world_of_def demo_children_def)
  have keys: "fst ` set (props (inst ?w))
                = {''docId'', ''createAt'', ''createDate'', ''updateAt'', ''updateDate'', ''uid'', ''name''}"
    by (simp add: world_of_def demo_entity_def construct_def initialize_def Let_def
          js_or_def item_prop_def)
  have g: "get_prop ''uid'' (inst ?w) = Some (VStr [])"
    by (simp add: world_of_def demo_entity_def get_prop_construct)
  have n1: "''zz'' \<noteq> []" and n2: "''c1'' \<noteq> []" by simp_all
  have dc: "''docId'' \<in> set base_fields" by (simp add: base_fields_def)
  let ?z = "inst (snd (fetch demo_env (Some (VStr ''zz'')) ?w))"
  let ?c = "inst (snd (fetch demo_env (Some (VStr ''c1'')) ?w))"
  from fetch_missing_and_present [OF n1, of ?w demo_env] h1
  have a1: "fst (fetch demo_env (Some (VStr ''zz'')) ?w) = Inr ()"
    and a2: "\<forall>k\<in>set base_fields. get_prop k ?z = get_prop k (construct (collection (inst ?w)))"
    by blast+
  from a2 dc have a3: "get_prop ''docId'' ?z = Some (VStr [])"
    by (simp add: get_prop_construct)
  from fetch_missing_and_present [OF n2, of ?w demo_env] h2
  have b: "\<forall>k. get_prop k ?c =
             (if k \<in> fst ` set (props (inst ?w))
              then (case map_of [(''docId'', VStr ''c1''), (''createAt'', VNum 5),
                      (''name'', VStr ''Alice''), (''legacy'', VStr ''kept'')] k of
                      Some v \<Rightarrow> Some v | None \<Rightarrow> get_prop k (inst ?w))
              else None)"
    by blast
  have b1: "get_prop ''name'' ?c = Some (VStr ''Alice'')"
    using b [rule_format, of "''name''"] by (simp add: keys)
  have b2: "get_prop ''legacy'' ?c = None"
    using b [rule_format, of "''legacy''"] by (simp add: keys)
  have b3: "get_prop ''uid'' ?c = Some (VStr [])"
    using b [rule_format, of "''uid''"] g by (simp add: keys)
  show ?thesis using a1 a3 b1 b2 b3 by simp
qed

text \<open>
  As claim C9 is worded, all fields of the instance are reset by a fetch of a missing id.
  An entity whose \<^verbatim>\<open>name\<close> starts empty, after fetching a present document and then a
  missing one, still holds the fetched name.
\<close>

theorem fetch_keeps_extra_field_counterexample:
  "get_prop ''name'' demo_entity = Some (VStr []) \<and>
   fst (fetch demo_env (Some (VStr ''zz''))
          (snd (fetch demo_env (Some (VStr ''c1'')) (world_of demo_entity demo_children)))) = Inr () \<and>
   get_prop ''name'' (inst (snd (fetch demo_env (Some (VStr ''zz''))
          (snd (fetch demo_env (Some (VStr ''c1'')) (world_of demo_entity demo_children))))))
     = Some (VStr ''Alice'')"
  by code_simp

subsection \<open>update()\<close>

lemma map_of_key_filter:
  "map_of (filter (\<lambda>kv. P (fst kv)) al) k = (if P k then map_of al k else None)"
  by (induction al) auto

lemma map_of_update_payload:
  "map_of (update_payload m) k =
     (if k = ''createAt'' \<or> k = ''createDate'' then None else get_prop k m)"
  unfolding update_payload_def get_prop_def
  by (simp add: map_of_key_filter [where P = "\<lambda>k. k \<noteq> ''createAt'' \<and> k \<noteq> ''createDate''"])

lemma map_of_rev_distinct:
  "distinct (map fst al) \<Longrightarrow> map_of (rev al) k = map_of al k"
proof (induction al)
  case Nil
  show ?case by simp
next
  case (Cons p al)
  obtain a b where p: "p = (a, b)" by (cases p)
  from Cons.prems p have na: "a \<notin> fst ` set al" and d: "distinct (map fst al)" by auto
  from na have none: "map_of (rev al) a = None"
    by (simp add: map_of_eq_None_iff)
  show ?case
  proof (cases "k = a")
    case True
    then show ?thesis using p none by (simp add: map_add_def)
  next
    case False
    then show ?thesis using p Cons.IH [OF d] by (simp add: map_add_def split: option.splits)
  qed
qed

lemma map_of_merge_fields:
  "distinct (map fst item) \<Longrightarrow>
   map_of (merge_fields old item) k =
     (case map_of item k of Some v \<Rightarrow> Some v | None \<Rightarrow> map_of old k)"
  by (simp add: merge_fields_def map_of_fold_update map_of_rev_distinct)

lemma distinct_update_payload:
  "distinct (map fst (props m)) \<Longrightarrow> distinct (map fst (update_payload m))"
  by (simp add: update_payload_def distinct_map_filter)

lemma distinct_stamp_update:
  "distinct (map fst (props m)) \<Longrightarrow> distinct (map fst (props (stamp_update E m)))"
  by (simp add: stamp_update_def distinct_update)

text \<open>
  Claim C10. On an instance with a document id, once \<^verbatim>\<open>beforeUpdate\<close> has resolved, the
  payload handed to \<^verbatim>\<open>updateDoc\<close> holds every property of the instance as it then is
  (with the refreshed \<^verbatim>\<open>updateAt\<close>, \<^verbatim>\<open>updateDate\<close> and \<^verbatim>\<open>uid\<close>) except \<^verbatim>\<open>createAt\<close> and
  \<^verbatim>\<open>createDate\<close>. Every document of the store keeps its \<^verbatim>\<open>createAt\<close> and \<^verbatim>\<open>createDate\<close>
  and every field the payload does not have; the document updated takes the payload's
  fields. The hook \<^verbatim>\<open>afterUpdate\<close> is taken not to write to the store itself.
\<close>

theorem update_keeps_creation_stamps:
  assumes docId: "truthy_opt (get_prop ''docId'' (inst w))"
      and before: "beforeUpdate H (inst w) (db w) = (None, m1, st1)"
      and ref: "doc_ref (collection m1) (get_prop ''docId'' m1) = Inr docRef"
      and wf: "distinct (map fst (props m1))"
      and after: "\<And>m st. snd (snd (afterUpdate H m st)) = st"
  shows "(\<forall>k. map_of (update_payload (stamp_update E m1)) k =
               (if k = ''createAt'' \<or> k = ''createDate'' then None
                else get_prop k (stamp_update E m1))) \<and>
         EvUpdateDoc docRef (update_payload (stamp_update E m1)) \<in> set (trace (snd (update E H w))) \<and>
         (\<forall>p old. map_of (docs st1) p = Some old \<longrightarrow>
            (\<exists>new. map_of (docs (db (snd (update E H w)))) p = Some new \<and>
               map_of new ''createAt'' = map_of old ''createAt'' \<and>
               map_of new ''createDate'' = map_of old ''createDate'' \<and>
               (\<forall>k. map_of (update_payload (stamp_update E m1)) k = None \<longrightarrow>
                    map_of new k = map_of old k) \<and>
               (p = docRef \<longrightarrow>
                  (\<forall>k v. map_of (update_payload (stamp_update E m1)) k = Some v \<longrightarrow>
                     map_of new k = Some v))))"
proof -
  let ?m = "stamp_update E m1"
  let ?item = "update_payload ?m"
  let ?w1 = "sendConsole SInfo (Text ''update() is called.'') [] w"
  have hook: "run_hook BeforeUpdate (beforeUpdate H)
                ''An error has occured at beforeUpdate() in update().'' ?w1
              = (None, (emit (EvHook BeforeUpdate) ?w1)\<lparr>inst := m1, db := st1\<rparr>)"
    using before by (simp add: run_hook_resolved)
  have pay: "\<forall>k. map_of ?item k =
               (if k = ''createAt'' \<or> k = ''createDate'' then None else get_prop k ?m)"
    by (simp add: map_of_update_payload)
  have di: "distinct (map fst ?item)"
    using wf by (intro distinct_update_payload distinct_stamp_update)
  show ?thesis
  proof (cases "map_of (docs st1) docRef")
    case None
    then have upd: "updateDoc docRef ?item st1 = Inl (ErrorObject NotFound)"
      by (simp add: updateDoc_def)
    have fin: "db (snd (update E H w)) = st1"
      and tr: "trace (snd (update E H w)) = trace w @ [EvHook BeforeUpdate, EvUpdateDoc docRef ?item]"
      using docId by (simp_all add: update_def Let_def hook ref upd)
    show ?thesis unfolding fin tr using pay None by auto
  next
    case (Some old0)
    let ?st2 = "st1\<lparr>docs := AList.update docRef (merge_fields old0 ?item) (docs st1)\<rparr>"
    have upd: "updateDoc docRef ?item st1 = Inr ?st2"
      using Some by (simp add: updateDoc_def)
    have fin: "db (snd (update E H w)) = ?st2"
      using docId by (simp add: update_def Let_def hook ref upd after_hook_db after)
    have tr: "trace (snd (update E H w))
                = trace w @ [EvHook BeforeUpdate, EvUpdateDoc docRef ?item, EvHook AfterUpdate]"
      using docId by (simp add: update_def Let_def hook ref upd after_hook_trace)
    have mg: "\<And>k. map_of (merge_fields old0 ?item) k =
                (case map_of ?item k of Some v \<Rightarrow> Some v | None \<Rightarrow> map_of old0 k)"
      using di by (rule map_of_merge_fields)
    have look: "\<And>p. map_of (docs ?st2) p =
                 (if p = docRef then Some (merge_fields old0 ?item) else map_of (docs st1) p)"
      by (simp add: update_conv')
    have frame: "\<forall>p old. map_of (docs st1) p = Some old \<longrightarrow>
            (\<exists>new. map_of (docs ?st2) p = Some new \<and>
               map_of new ''createAt'' = map_of old ''createAt'' \<and>
               map_of new ''createDate'' = map_of old ''createDate'' \<and>
               (\<forall>k. map_of ?item k = None \<longrightarrow> map_of new k = map_of old k) \<and>
               (p = docRef \<longrightarrow> (\<forall>k v. map_of ?item k = Some v \<longrightarrow> map_of new k = Some v)))"
    proof (intro allI impI)
      fix p old assume o: "map_of (docs st1) p = Some old"
      show "\<exists>new. map_of (docs ?st2) p = Some new \<and>
               map_of new ''createAt'' = map_of old ''createAt'' \<and>
               map_of new ''createDate'' = map_of old ''createDate'' \<and>
               (\<forall>k. map_of ?item k = None \<longrightarrow> map_of new k = map_of old k) \<and>
               (p = docRef \<longrightarrow> (\<forall>k v. map_of ?item k = Some v \<longrightarrow> map_of new k = Some v))"
      proof (cases "p = docRef")
        case True
        with o Some have "old = old0" by simp
        then show ?thesis using True look [of p] mg pay by simp
      next
        case False
        then show ?thesis using o look [of p] by simp
      qed
    qed
    show ?thesis unfolding fin tr using pay frame by simp
  qed
qed

text \<open>
  The theorem on a customer whose stored document has a \<^verbatim>\<open>createAt\<close> and a field
  \<^verbatim>\<open>legacy\<close> that the instance does not have.
\<close>

theorem update_keeps_creation_stamps_witness:
  "EvUpdateDoc (''Customers'', ''c1'') (update_payload (stamp_update demo_env demo_parent))
     \<in> set (trace (snd (update demo_env base_hooks (world_of demo_parent demo_children)))) \<and>
   map_of (update_payload (stamp_update demo_env demo_parent)) ''createAt'' = None \<and>
   (\<exists>new. map_of (docs (db (snd (update demo_env base_hooks (world_of demo_parent demo_children)))))
             (''Customers'', ''c1'') = Some new \<and>
          map_of new ''createAt'' = Some (VNum 5) \<and>
          map_of new ''legacy'' = Some (VStr ''kept'') \<and>
          map_of new ''uid'' = Some (VStr ''u1''))"
proof -
  let ?w = "world_of demo_parent demo_children"
  let ?old = "[(''docId'', VStr ''c1''), (''createAt'', VNum 5),
               (''name'', VStr ''Alice''), (''legacy'', VStr ''kept'')]"
  let ?item = "update_payload (stamp_update demo_env demo_parent)"
  have h1: "truthy_opt (get_prop ''docId'' (inst ?w))"
    by (simp add: world_of_def demo_parent_def)
  have h2: "beforeUpdate base_hooks (inst ?w) (db ?w) = (None, demo_parent, demo_children)"
    by (simp add: base_hooks_def resolve_def world_of_def)
  have h3: "doc_ref (collection demo_parent) (get_prop ''docId'' demo_parent) = Inr (''Customers'', ''c1'')"
    by (simp add: demo_parent_def construct_def initialize_def Let_def)
  have h4: "distinct (map fst (props demo_parent))"
    by (simp add: demo_parent_def construct_def initialize_def Let_def js_or_def item_prop_def)
  have h5: "\<And>m st. snd (snd (afterUpdate base_hooks m st)) = st"
    by (simp add: base_hooks_def resolve_def)
  have old: "map_of (docs demo_children) (''Customers'', ''c1'') = Some ?old"
    by (simp add: demo_children_def)
  have p1: "map_of ?item ''legacy'' = None"
    by (simp add: map_of_update_payload stamp_update_def demo_parent_def get_prop_def
          construct_def initialize_def Let_def js_or_def item_prop_def)
  have p2: "map_of ?item ''uid'' = Some (VStr ''u1'')"
    by (simp add: map_of_update_payload stamp_update_def demo_env_def js_or_def)
  note T = update_keeps_creation_stamps [OF h1 h2 h3 h4 h5, of demo_env]
  have a: "map_of ?item ''createAt'' = None"
    using T [THEN conjunct1] by simp
  have b: "EvUpdateDoc (''Customers'', ''c1'') ?item \<in> set (trace (snd (update demo_env base_hooks ?w)))"
    using T [THEN conjunct2, THEN conjunct1] .
  note c = T [THEN conjunct2, THEN conjunct2]
  from c [rule_format, OF old] obtain new where
    n: "map_of (docs (db (snd (update demo_env base_hooks ?w)))) (''Customers'', ''c1'') = Some new"
       "map_of new ''createAt'' = map_of ?old ''createAt''"
       "\<forall>k. map_of ?item k = None \<longrightarrow> map_of new k = map_of ?old k"
       "\<forall>k v. map_of ?item k = Some v \<longrightarrow> map_of new k = Some v"
    by auto
  have "map_of new ''createAt'' = Some (VNum 5)" using n(2) by simp
  moreover have "map_of new ''legacy'' = Some (VStr ''kept'')" using n(3) p1 by simp
  moreover have "map_of new ''uid'' = Some (VStr ''u1'')" using n(4) p2 by simp
  ultimately show ?thesis using a b n(1) by blast
qed

subsection \<open>Rejecting hooks\<close>

text \<open>
  Every hook is called in the same way: a rejection is logged and handed to the outer
  handler, and the rest of the operation is skipped. When the reason has a \<^verbatim>\<open>message\<close>
  to read (any reason but \<^verbatim>\<open>undefined\<close> and \<^verbatim>\<open>null\<close>), the operation ends with that very
  reason, in the world the hook left, with two more console lines and nothing else.
\<close>

lemma rejected_hook_rethrown:
  assumes "h (inst w) (db w) = (Some r, m, st)" and "message_of r = Some msg"
  shows "(case run_hook n h t w of
            (None, w') \<Rightarrow> K w'
          | (Some err, w') \<Rightarrow> rethrow err w')
         = (Inl r, w\<lparr>inst := m, db := st, trace := trace w @ [EvHook n],
                     console := console w @ [(SError, Text t, []), (SError, msg, [])]\<rparr>)"
  using assms by (simp add: run_hook_def rethrow_def sendConsole_def emit_def)

text \<open>
  For the three hooks that run before the write: a rejection with such a reason ends
  \<^verbatim>\<open>create()\<close>, \<^verbatim>\<open>update()\<close> and \<^verbatim>\<open>delete()\<close> with it, and instance and store are as the
  hook left them; the trace shows no store write.
\<close>

lemma before_hook_failure_aborts:
  assumes msg: "message_of r = Some msg"
  shows "beforeCreate H (inst w) (db w) = (Some r, m, st) \<longrightarrow>
           fst (create E H d w) = Inl r \<and> inst (snd (create E H d w)) = m \<and>
           db (snd (create E H d w)) = st \<and>
           trace (snd (create E H d w)) = trace w @ [EvHook BeforeCreate]"
    and "truthy_opt (get_prop ''docId'' (inst w)) \<and>
         beforeUpdate H (inst w) (db w) = (Some r, m, st) \<longrightarrow>
           fst (update E H w) = Inl r \<and> inst (snd (update E H w)) = m \<and>
           db (snd (update E H w)) = st \<and>
           trace (snd (update E H w)) = trace w @ [EvHook BeforeUpdate]"
    and "get_prop ''docId'' (inst w) = Some v \<and> truthy v \<and>
         (\<forall>dep\<in>set (hasMany (inst w)). \<not> has_match E (db w) v dep) \<and>
         beforeDelete H (inst w) (db w) = (Some r, m, st) \<longrightarrow>
           fst (delete E H w) = Inl r \<and> inst (snd (delete E H w)) = m \<and>
           db (snd (delete E H w)) = st \<and>
           trace (snd (delete E H w))
             = trace w @ map (query_event v) (hasMany (inst w)) @ [EvHook BeforeDelete]"
proof -
  show "beforeCreate H (inst w) (db w) = (Some r, m, st) \<longrightarrow>
           fst (create E H d w) = Inl r \<and> inst (snd (create E H d w)) = m \<and>
           db (snd (create E H d w)) = st \<and>
           trace (snd (create E H d w)) = trace w @ [EvHook BeforeCreate]"
  proof
    assume h: "beforeCreate H (inst w) (db w) = (Some r, m, st)"
    show "fst (create E H d w) = Inl r \<and> inst (snd (create E H d w)) = m \<and>
           db (snd (create E H d w)) = st \<and>
           trace (snd (create E H d w)) = trace w @ [EvHook BeforeCreate]"
      using h msg by (simp add: create_def run_hook_def rethrow_def)
  qed
  show "truthy_opt (get_prop ''docId'' (inst w)) \<and>
         beforeUpdate H (inst w) (db w) = (Some r, m, st) \<longrightarrow>
           fst (update E H w) = Inl r \<and> inst (snd (update E H w)) = m \<and>
           db (snd (update E H w)) = st \<and>
           trace (snd (update E H w)) = trace w @ [EvHook BeforeUpdate]"
  proof
    assume a: "truthy_opt (get_prop ''docId'' (inst w)) \<and>
               beforeUpdate H (inst w) (db w) = (Some r, m, st)"
    show "fst (update E H w) = Inl r \<and> inst (snd (update E H w)) = m \<and>
           db (snd (update E H w)) = st \<and>
           trace (snd (update E H w)) = trace w @ [EvHook BeforeUpdate]"
      using a msg by (simp add: update_def Let_def run_hook_def rethrow_def)
  qed
  show "get_prop ''docId'' (inst w) = Some v \<and> truthy v \<and>
         (\<forall>dep\<in>set (hasMany (inst w)). \<not> has_match E (db w) v dep) \<and>
         beforeDelete H (inst w) (db w) = (Some r, m, st) \<longrightarrow>
           fst (delete E H w) = Inl r \<and> inst (snd (delete E H w)) = m \<and>
           db (snd (delete E H w)) = st \<and>
           trace (snd (delete E H w))
             = trace w @ map (query_event v) (hasMany (inst w)) @ [EvHook BeforeDelete]"
  proof
    assume a: "get_prop ''docId'' (inst w) = Some v \<and> truthy v \<and>
         (\<forall>dep\<in>set (hasMany (inst w)). \<not> has_match E (db w) v dep) \<and>
         beforeDelete H (inst w) (db w) = (Some r, m, st)"
    then have hc: "hasChild E (db w) v (hasMany (inst w)) = (None, map (query_event v) (hasMany (inst w)))"
      by (intro hasChild_none) simp
    show "fst (delete E H w) = Inl r \<and> inst (snd (delete E H w)) = m \<and>
           db (snd (delete E H w)) = st \<and>
           trace (snd (delete E H w))
             = trace w @ map (query_event v) (hasMany (inst w)) @ [EvHook BeforeDelete]"
      using a hc msg by (simp add: delete_def Let_def run_hook_def rethrow_def)
  qed
qed

text \<open>
  Claim C5. A hook that rejects aborts the operation and its error reaches the caller
  unchanged. The code misses one case: when \<^verbatim>\<open>beforeCreate\<close> rejects without a reason
  (\<^verbatim>\<open>reject()\<close>, the reason is \<^verbatim>\<open>undefined\<close>), the outer handler's read of
  \<^verbatim>\<open>err.message\<close> raises a TypeError, and the caller of \<^verbatim>\<open>create()\<close> receives that
  TypeError in place of the hook's reason. The same hook rejecting with an \<^verbatim>\<open>Error\<close>
  is propagated as it is; \<^verbatim>\<open>update()\<close> with an \<^verbatim>\<open>afterUpdate\<close> that rejects with
  \<^verbatim>\<open>null\<close> ends in the TypeError as well.
\<close>

theorem hook_rejection_without_reason:
  "fst (create demo_env (base_hooks\<lparr>beforeCreate := rejecting Undefined\<rparr>) None
          (world_of (construct ''Customers'') (numbered_store 7 3)))
     = Inl (ErrorObject TypeError) \<and>
   fst (create demo_env (base_hooks\<lparr>beforeCreate := rejecting (ErrorObject (UserError ''no''))\<rparr>) None
          (world_of (construct ''Customers'') (numbered_store 7 3)))
     = Inl (ErrorObject (UserError ''no'')) \<and>
   fst (update demo_env (base_hooks\<lparr>afterUpdate := rejecting (Thrown VNull)\<rparr>)
          (world_of demo_parent demo_children))
     = Inl (ErrorObject TypeError)"
  by code_simp

end
